theory Spec2Isabelle
  imports Main "HOL-Library.Multiset"
begin

section \<open>A shallow embedding of \<^verbatim>\<open>movie_quiz.py\<close>\<close>

text \<open>
  The program is a console quiz: it reads movie titles from a file, scrambles the letters
  of every word of a title into 50 anagrams, and asks the user to guess each title in at
  most \<^verbatim>\<open>max_guesses\<close> attempts. The embedding makes explicit what the Python leaves
  implicit: the random number generator, standard input and output, the file system, and
  the exceptions a call can raise.
\<close>

subsection \<open>Python built-ins used by the program\<close>

text \<open>
  A Python \<^verbatim>\<open>str\<close> is a \<^typ>\<open>string\<close>; a \<^typ>\<open>char\<close> stands for a code point below
  256 (ASCII and Latin-1). \<^verbatim>\<open>str.isspace\<close> holds below 256 for the code points 9 to 13,
  28 to 32, 133 and 160.
\<close>

definition isspace :: "char \<Rightarrow> bool" where
  "isspace c =
     (let n = (of_char c :: nat)
      in (9 \<le> n \<and> n \<le> 13) \<or> (28 \<le> n \<and> n \<le> 32) \<or> n = 133 \<or> n = 160)"

text \<open>
  \<^verbatim>\<open>str.lower\<close> below 256: the capitals are \<^verbatim>\<open>A\<close> to \<^verbatim>\<open>Z\<close> (65 to 90) and the Latin-1
  capitals 192 to 222 without the multiplication sign 215; the small letter of each is 32
  code points higher. Every other code point below 256 is left as it is.
\<close>

definition lower_char :: "char \<Rightarrow> char" where
  "lower_char c =
     (let n = (of_char c :: nat)
      in if (65 \<le> n \<and> n \<le> 90) \<or> (192 \<le> n \<and> n \<le> 222 \<and> n \<noteq> 215)
         then char_of (n + 32) else c)"

definition lower :: "string \<Rightarrow> string" where
  "lower s = map lower_char s"

text \<open>
  \<^verbatim>\<open>str.upper\<close> below 256: the small letters \<^verbatim>\<open>a\<close> to \<^verbatim>\<open>z\<close> (97 to 122) and the Latin-1
  small letters 224 to 254 without the division sign 247 have their capital 32 code points
  lower; the sharp s (223) becomes the two letters \<^verbatim>\<open>SS\<close>. The capitals of the micro sign
  (181) and of y with diaeresis (255) are the code points 924 and 376, which no
  \<^typ>\<open>char\<close> stands for: the model leaves these two characters as they are, and so
  covers the upper-casing of every text without them.
\<close>

definition upper_char :: "char \<Rightarrow> string" where
  "upper_char c =
     (let n = (of_char c :: nat)
      in if (97 \<le> n \<and> n \<le> 122) \<or> (224 \<le> n \<and> n \<le> 254 \<and> n \<noteq> 247)
         then [char_of (n - 32)]
         else if n = 223 then ''SS'' else [c])"

definition upper :: "string \<Rightarrow> string" where
  "upper s = concat (map upper_char s)"

text \<open>\<^verbatim>\<open>s.strip()\<close>: leading and trailing whitespace removed.\<close>

definition strip :: "string \<Rightarrow> string" where
  "strip s = rev (dropWhile isspace (rev (dropWhile isspace s)))"

text \<open>
  \<^verbatim>\<open>s.split()\<close>: the maximal runs of characters that are not whitespace. The first
  argument is the word being read, in reverse.
\<close>

fun split_acc :: "string \<Rightarrow> string \<Rightarrow> string list" where
  "split_acc acc [] = (if acc = [] then [] else [rev acc])"
| "split_acc acc (c # cs) =
     (if isspace c then (if acc = [] then split_acc [] cs else rev acc # split_acc [] cs)
      else split_acc (c # acc) cs)"

definition split :: "string \<Rightarrow> string list" where
  "split s = split_acc [] s"

text \<open>\<^verbatim>\<open>sep.join(words)\<close>\<close>

fun join :: "string \<Rightarrow> string list \<Rightarrow> string" where
  "join sep [] = []"
| "join sep [w] = w"
| "join sep (w # ws) = w @ sep @ join sep ws"

text \<open>
  \<^verbatim>\<open>s.splitlines()\<close>: the lines of \<open>s\<close> without their line breaks. Below code point 256
  the line boundaries are \<^verbatim>\<open>\n\<close>, \<^verbatim>\<open>\r\<close>, \<^verbatim>\<open>\r\n\<close>, and the code points 11, 12, 28,
  29, 30 and 133. The first argument is the line being read, in reverse.
\<close>

definition is_linebreak :: "char \<Rightarrow> bool" where
  "is_linebreak c =
     (let n = (of_char c :: nat)
      in (10 \<le> n \<and> n \<le> 13) \<or> (28 \<le> n \<and> n \<le> 30) \<or> n = 133)"

fun splitlines_acc :: "string \<Rightarrow> string \<Rightarrow> string list" where
  "splitlines_acc acc [] = (if acc = [] then [] else [rev acc])"
| "splitlines_acc acc [c] =
     (if is_linebreak c then [rev acc] else [rev (c # acc)])"
| "splitlines_acc acc (c # d # cs) =
     (if (of_char c :: nat) = 13 \<and> (of_char d :: nat) = 10 then rev acc # splitlines_acc [] cs
      else if is_linebreak c then rev acc # splitlines_acc [] (d # cs)
      else splitlines_acc (c # acc) (d # cs))"

definition splitlines :: "string \<Rightarrow> string list" where
  "splitlines s = splitlines_acc [] s"

text \<open>
  \<^verbatim>\<open>os.path.join(dir, filename)\<close> on a POSIX system.
\<close>

definition path_join :: "string \<Rightarrow> string \<Rightarrow> string" where
  "path_join dir filename =
     (if filename \<noteq> [] \<and> hd filename = CHR ''/'' then filename
      else if dir = [] \<or> last dir = CHR ''/'' then dir @ filename
      else dir @ ''/'' @ filename)"

subsection \<open>The random number generator\<close>

text \<open>
  The generator is an infinite sequence of natural numbers, read from the front. What the
  program does for every possible run of \<^verbatim>\<open>random\<close> is what the model does for every
  sequence.
\<close>

type_synonym rng = "nat \<Rightarrow> nat"

definition shift :: "nat \<Rightarrow> rng \<Rightarrow> rng" where
  "shift n g = (\<lambda>i. g (i + n))"

text \<open>Two generators for the examples: one always draws 0, the other always draws 1.\<close>

definition zeros :: rng where
  "zeros = (\<lambda>_. 0)"

definition ones :: rng where
  "ones = (\<lambda>_. 1)"

text \<open>\<^verbatim>\<open>_randbelow(n)\<close>, for \<open>0 < n\<close>: a number below \<open>n\<close>.\<close>

definition randbelow :: "rng \<Rightarrow> nat \<Rightarrow> nat \<times> rng" where
  "randbelow g n = (g 0 mod n, shift 1 g)"

text \<open>
  \<^verbatim>\<open>random.sample(population, k)\<close> as CPython computes it when \<open>k\<close> is the length of the
  population: \<open>k\<close> times, an index \<open>j\<close> below the size of the pool is drawn, \<open>pool[j]\<close> is
  the next element of the result, and the last element of the pool takes its place.
\<close>

fun sample_pool :: "nat \<Rightarrow> rng \<Rightarrow> 'a list \<Rightarrow> 'a list \<times> rng" where
  "sample_pool 0 g pool = ([], g)"
| "sample_pool (Suc k) g pool =
     (if pool = [] then ([], g)
      else case randbelow g (length pool) of
        (j, g') \<Rightarrow>
          (case sample_pool k g' (butlast (pool[j := last pool])) of
             (rest, g'') \<Rightarrow> (pool ! j # rest, g'')))"

definition sample :: "rng \<Rightarrow> 'a list \<Rightarrow> 'a list \<times> rng" where
  "sample g population = sample_pool (length population) g population"

text \<open>
  \<^verbatim>\<open>random.choice(seq)\<close> raises \<^verbatim>\<open>IndexError\<close> on an empty sequence and otherwise
  returns \<^verbatim>\<open>seq[_randbelow(len(seq))]\<close>.
\<close>

datatype error =
    IndexError
  | EOFError
  | SystemExit
  | FileNotFoundError
  | PermissionError
  | UnicodeDecodeError

definition choice :: "rng \<Rightarrow> 'a list \<Rightarrow> error + ('a \<times> rng)" where
  "choice g seq =
     (if seq = [] then Inl IndexError
      else case randbelow g (length seq) of (j, g') \<Rightarrow> Inr (seq ! j, g'))"

text \<open>
  \<^verbatim>\<open>random.shuffle(x)\<close>: for \<open>i\<close> from \<open>len(x) - 1\<close> down to 1, an index \<open>j\<close> below
  \<open>i + 1\<close> is drawn and \<open>x[i]\<close> and \<open>x[j]\<close> are exchanged.
\<close>

fun shuffle_from :: "nat \<Rightarrow> rng \<Rightarrow> 'a list \<Rightarrow> 'a list \<times> rng" where
  "shuffle_from 0 g x = (x, g)"
| "shuffle_from (Suc i) g x =
     (if i = 0 then (x, g)
      else case randbelow g (Suc i) of
        (j, g') \<Rightarrow> shuffle_from i g' (x[i := x ! j, j := x ! i]))"

definition shuffle :: "rng \<Rightarrow> 'a list \<Rightarrow> 'a list \<times> rng" where
  "shuffle g x = shuffle_from (length x) g x"

subsection \<open>\<^verbatim>\<open>Movie\<close>\<close>

record Movie =
  title :: string
  anagrams :: "string list"
  correct_guess :: bool
  spent :: "string list"

definition title_lower :: "Movie \<Rightarrow> string" where
  "title_lower m = lower (title m)"

text \<open>
  \<^verbatim>\<open>Movie.random_anagram\<close>: a random choice among the anagrams that are not in
  \<^verbatim>\<open>_spent\<close>, appended to \<^verbatim>\<open>_spent\<close>. When \<^verbatim>\<open>random.choice\<close> raises, nothing has been
  changed.
\<close>

definition random_anagram :: "Movie \<Rightarrow> rng \<Rightarrow> error + (string \<times> Movie \<times> rng)" where
  "random_anagram m g =
     (case choice g (filter (\<lambda>x. x \<notin> set (spent m)) (anagrams m)) of
        Inl e \<Rightarrow> Inl e
      | Inr (anagram, g') \<Rightarrow> Inr (anagram, m\<lparr>spent := spent m @ [anagram]\<rparr>, g'))"

subsection \<open>\<^verbatim>\<open>MovieQuiz._scramble_word\<close>\<close>

text \<open>
  The loop of \<^verbatim>\<open>_scramble_word\<close>, with its counter \<open>i\<close> as the source has it: the body
  never assigns \<open>i\<close>, so the recursive call passes it on as it is. The loop may run forever:
  the result \<open>None\<close> stands for a call that does not return.
\<close>

partial_function (option) scramble_loop :: "nat \<Rightarrow> rng \<Rightarrow> string \<Rightarrow> (string \<times> rng) option" where
  "scramble_loop i g word =
     (if i < 10 then
        (case sample g word of
           (anagram, g') \<Rightarrow>
             if anagram \<noteq> word then Some (anagram, g') else scramble_loop i g' word)
      else Some (word, g))"

declare scramble_loop.simps [code]

definition scramble_word :: "rng \<Rightarrow> string \<Rightarrow> (string \<times> rng) option" where
  "scramble_word g word = scramble_loop 0 g word"

text \<open>
  The permutation that the \<open>k\<close>-th turn of the loop draws, counting from 0: every turn reads
  \<^verbatim>\<open>len(word)\<close> numbers from the generator.
\<close>

definition draw :: "nat \<Rightarrow> rng \<Rightarrow> string \<Rightarrow> string" where
  "draw k g word = fst (sample (shift (k * length word) g) word)"

subsection \<open>\<^verbatim>\<open>MovieQuiz\<close>: loading the titles and building the quiz\<close>

record MovieQuiz =
  movie_titles :: "string list"
  questions :: "Movie list"
  max_guesses :: int

text \<open>
  The file system gives, for a path, what \<^verbatim>\<open>open(file)\<close> followed by \<^verbatim>\<open>f.read()\<close>
  does: the exception raised, or the text of the file.
\<close>

type_synonym filesystem = "string \<Rightarrow> error + string"

text \<open>
  \<^verbatim>\<open>_load_movie_titles\<close>; \<open>dir\<close> is \<^verbatim>\<open>dirname(__file__)\<close>, the directory of the program.
\<close>

definition load_movie_titles :: "filesystem \<Rightarrow> string \<Rightarrow> string \<Rightarrow> error + string list" where
  "load_movie_titles fs dir filename =
     (case fs (path_join dir filename) of
        Inl e \<Rightarrow> Inl e
      | Inr text \<Rightarrow> Inr (splitlines text))"

text \<open>\<^verbatim>\<open>[self._scramble_word(word) for word in title.split()]\<close>\<close>

fun scramble_words :: "rng \<Rightarrow> string list \<Rightarrow> (string list \<times> rng) option" where
  "scramble_words g [] = Some ([], g)"
| "scramble_words g (word # ws) =
     (case scramble_word g word of
        None \<Rightarrow> None
      | Some (a, g') \<Rightarrow>
          (case scramble_words g' ws of
             None \<Rightarrow> None
           | Some (as, g'') \<Rightarrow> Some (a # as, g'')))"

text \<open>The loop \<^verbatim>\<open>for _ in range(50)\<close> of \<^verbatim>\<open>_generate_quiz\<close>, with its count as argument.\<close>

fun append_anagrams :: "nat \<Rightarrow> rng \<Rightarrow> Movie \<Rightarrow> (Movie \<times> rng) option" where
  "append_anagrams 0 g movie = Some (movie, g)"
| "append_anagrams (Suc n) g movie =
     (case scramble_words g (split (title movie)) of
        None \<Rightarrow> None
      | Some (anagram, g') \<Rightarrow>
          append_anagrams n g' (movie\<lparr>anagrams := anagrams movie @ [upper (join '' '' anagram)]\<rparr>))"

text \<open>The loop \<^verbatim>\<open>for title in movie_titles\<close>; the third argument is the list built so far.\<close>

fun build_questions :: "rng \<Rightarrow> string list \<Rightarrow> Movie list \<Rightarrow> (Movie list \<times> rng) option" where
  "build_questions g [] qs = Some (qs, g)"
| "build_questions g (t # ts) qs =
     (case append_anagrams 50 g \<lparr>title = t, anagrams = [], correct_guess = False, spent = []\<rparr> of
        None \<Rightarrow> None
      | Some (movie, g') \<Rightarrow> build_questions g' ts (qs @ [movie]))"

definition generate_quiz :: "rng \<Rightarrow> string list \<Rightarrow> (Movie list \<times> rng) option" where
  "generate_quiz g titles =
     (case build_questions g titles [] of
        None \<Rightarrow> None
      | Some (qs, g') \<Rightarrow> Some (shuffle g' qs))"

text \<open>
  \<^verbatim>\<open>MovieQuiz.__init__\<close>: \<open>None\<close> when the constructor does not return, \<open>Some (Inl e)\<close> when
  it raises \<open>e\<close>, \<open>Some (Inr (quiz, g))\<close> when it returns.
\<close>

definition init ::
  "filesystem \<Rightarrow> string \<Rightarrow> rng \<Rightarrow> string \<Rightarrow> int \<Rightarrow> (error + MovieQuiz \<times> rng) option" where
  "init fs dir g filename mg =
     (case load_movie_titles fs dir filename of
        Inl e \<Rightarrow> Some (Inl e)
      | Inr titles \<Rightarrow>
          (case generate_quiz g titles of
             None \<Rightarrow> None
           | Some (qs, g') \<Rightarrow>
               Some (Inr (\<lparr>movie_titles = titles, questions = qs, max_guesses = mg\<rparr>, g'))))"

subsection \<open>The console\<close>

text \<open>
  What the user does at a prompt: a line of text, or Ctrl+C. When the list of inputs is
  used up, standard input is at its end and \<^verbatim>\<open>input\<close> raises \<^verbatim>\<open>EOFError\<close>.
\<close>

datatype input = Line string | KeyboardInterrupt

text \<open>What the program prints, one constructor for each \<^verbatim>\<open>print\<close> or prompt.\<close>

datatype msg =
    Clear
  | WhichMovie nat nat
  | TypeNextOrPass
  | Anagram string
  | GuessPrompt nat int
  | CorrectMsg
  | IncorrectMsg
  | AnswerWas string
  | NoMoreAttempts string
  | PressEnter
  | Farewell
  | AllDone
  | AllRight
  | AllWrong
  | NotBad
  | RightWrong int int
  | Blank

record env =
  random :: rng
  stdin :: "input list"
  stdout :: "msg list"

definition print :: "msg list \<Rightarrow> env \<Rightarrow> env" where
  "print ms e = e\<lparr>stdout := stdout e @ ms\<rparr>"

text \<open>
  \<^verbatim>\<open>ConsoleUtils.get_input\<close>: the answer stripped; on Ctrl+C the farewell is printed and
  \<^verbatim>\<open>exit()\<close> raises \<^verbatim>\<open>SystemExit\<close>.
\<close>

definition get_input :: "msg \<Rightarrow> env \<Rightarrow> env \<times> (error + string)" where
  "get_input prompt e =
     (case stdin e of
        [] \<Rightarrow> (print [prompt] e, Inl EOFError)
      | KeyboardInterrupt # rest \<Rightarrow> (print [prompt, Farewell] (e\<lparr>stdin := rest\<rparr>), Inl SystemExit)
      | Line answer # rest \<Rightarrow> (print [prompt] (e\<lparr>stdin := rest\<rparr>), Inr (strip answer)))"

subsection \<open>\<^verbatim>\<open>MovieQuiz.start\<close>\<close>

datatype GuessResult = DEFAULT | CORRECT | INCORRECT | PASS

text \<open>
  The \<^verbatim>\<open>match answer.lower()\<close> statement: the question as it is afterwards, the new
  result, and what is printed. The cases are tried in the order of the source.
\<close>

definition match_answer :: "Movie \<Rightarrow> string \<Rightarrow> Movie \<times> GuessResult \<times> msg list" where
  "match_answer question answer =
     (if lower answer = ''next'' then (question, DEFAULT, [])
      else if lower answer = ''pass'' then (question, PASS, [])
      else if lower answer = title_lower question then
        (question\<lparr>correct_guess := True\<rparr>, CORRECT, [CorrectMsg])
      else (question, INCORRECT, [IncorrectMsg]))"

text \<open>
  \<^verbatim>\<open>if result == GuessResult.DEFAULT: print(question.random_anagram())\<close>
\<close>

definition show_anagram :: "Movie \<Rightarrow> GuessResult \<Rightarrow> env \<Rightarrow> error + Movie \<times> env" where
  "show_anagram question result e =
     (if result = DEFAULT then
        (case random_anagram question (random e) of
           Inl err \<Rightarrow> Inl err
         | Inr (anagram, question', g') \<Rightarrow>
             Inr (question', print [Anagram anagram] (e\<lparr>random := g'\<rparr>)))
      else Inr (question, e))"

text \<open>
  The loop \<^verbatim>\<open>for x in range(self.max_guesses)\<close>; the second argument is what is left of
  the range. The loop returns the question and the environment as they are when it ends,
  and either the exception that ended it or the final result.
\<close>

fun guess_loop ::
  "int \<Rightarrow> nat list \<Rightarrow> Movie \<Rightarrow> GuessResult \<Rightarrow> env \<Rightarrow> Movie \<times> env \<times> (error + GuessResult)" where
  "guess_loop mg [] question result e = (question, e, Inr result)"
| "guess_loop mg (x # xs) question result e =
     (case show_anagram question result e of
        Inl err \<Rightarrow> (question, e, Inl err)
      | Inr (q1, e1) \<Rightarrow>
          (case get_input (GuessPrompt (x + 1) mg) e1 of
             (e2, Inl err) \<Rightarrow> (q1, e2, Inl err)
           | (e2, Inr answer) \<Rightarrow>
               (case match_answer q1 answer of
                  (q2, result', ms) \<Rightarrow>
                    if result' = CORRECT \<or> result' = PASS then (q2, print ms e2, Inr result')
                    else guess_loop mg xs q2 result' (print ms e2))))"

text \<open>
  The body of the loop \<^verbatim>\<open>for i, question in enumerate(self.questions)\<close>; \<open>n\<close> is
  \<^verbatim>\<open>len(self.questions)\<close>.
\<close>

definition ask :: "int \<Rightarrow> nat \<Rightarrow> nat \<Rightarrow> Movie \<Rightarrow> env \<Rightarrow> Movie \<times> env \<times> error option" where
  "ask mg n i question e =
     (case guess_loop mg [0..<nat mg] question DEFAULT
             (print [Clear, WhichMovie (i + 1) n, TypeNextOrPass] e) of
        (q, e1, Inl err) \<Rightarrow> (q, e1, Some err)
      | (q, e1, Inr result) \<Rightarrow>
          (case get_input PressEnter
                  (if result \<noteq> CORRECT then
                     print [if result \<noteq> PASS then NoMoreAttempts (upper (title q))
                            else AnswerWas (upper (title q))] e1
                   else e1) of
             (e2, Inl err) \<Rightarrow> (q, e2, Some err)
           | (e2, Inr _) \<Rightarrow> (q, e2, None)))"

text \<open>
  The loop over the questions: the questions as they are afterwards, in their places, the
  environment, and the exception that ended the loop, if any.
\<close>

fun ask_all :: "int \<Rightarrow> nat \<Rightarrow> nat \<Rightarrow> Movie list \<Rightarrow> env \<Rightarrow> Movie list \<times> env \<times> error option" where
  "ask_all mg n i [] e = ([], e, None)"
| "ask_all mg n i (question # rest) e =
     (case ask mg n i question e of
        (q, e1, Some err) \<Rightarrow> (q # rest, e1, Some err)
      | (q, e1, None) \<Rightarrow>
          (case ask_all mg n (i + 1) rest e1 of
             (rest', e2, r) \<Rightarrow> (q # rest', e2, r)))"

text \<open>The summary printed after the last question.\<close>

definition summary :: "Movie list \<Rightarrow> msg list" where
  "summary qs =
     (let num_questions = int (length qs);
          correct = int (length (filter correct_guess qs));
          incorrect = num_questions - correct
      in if correct = num_questions then [AllRight]
         else if correct = 0 then [AllWrong]
         else [NotBad, RightWrong correct incorrect])"

definition start :: "MovieQuiz \<Rightarrow> env \<Rightarrow> MovieQuiz \<times> env \<times> error option" where
  "start quiz e =
     (case ask_all (max_guesses quiz) (length (questions quiz)) 0 (questions quiz) e of
        (qs, e1, Some err) \<Rightarrow> (quiz\<lparr>questions := qs\<rparr>, e1, Some err)
      | (qs, e1, None) \<Rightarrow>
          (quiz\<lparr>questions := qs\<rparr>, print ([Clear, AllDone] @ summary qs @ [Blank]) e1, None))"

subsection \<open>One turn of the attempt loop, seen from the keyboard\<close>

text \<open>
  What a line typed at the guess prompt leads to: \<^verbatim>\<open>get_input\<close> strips it and the
  \<^verbatim>\<open>match\<close> statement takes the stripped answer.
\<close>

definition guess_line :: "Movie \<Rightarrow> string \<Rightarrow> Movie \<times> GuessResult \<times> msg list" where
  "guess_line question line = match_answer question (strip line)"

text \<open>The result of the turn for an input: none when the user presses Ctrl+C.\<close>

definition turn_result :: "Movie \<Rightarrow> input \<Rightarrow> GuessResult option" where
  "turn_result question i =
     (case i of
        Line line \<Rightarrow> Some (fst (snd (guess_line question line)))
      | KeyboardInterrupt \<Rightarrow> None)"


text \<open>
  Two states of a \<^verbatim>\<open>Movie\<close> that differ at most in \<^verbatim>\<open>correct_guess\<close> and \<^verbatim>\<open>_spent\<close>.
\<close>

definition same_entry :: "Movie \<Rightarrow> Movie \<Rightarrow> bool" where
  "same_entry q q' \<longleftrightarrow> q' = q\<lparr>correct_guess := correct_guess q', spent := spent q'\<rparr>"

subsection \<open>Example data\<close>

text \<open>A file system with one readable file; every other path is missing.\<close>

definition only_file :: "string \<Rightarrow> string \<Rightarrow> filesystem" where
  "only_file path text = (\<lambda>p. if p = path then Inr text else Inl FileNotFoundError)"

definition movie :: "string \<Rightarrow> string list \<Rightarrow> Movie" where
  "movie t pool = \<lparr>title = t, anagrams = pool, correct_guess = False, spent = []\<rparr>"

definition console :: "rng \<Rightarrow> input list \<Rightarrow> env" where
  "console g inputs = \<lparr>random = g, stdin = inputs, stdout = []\<rparr>"

definition quiz_up :: MovieQuiz where
  "quiz_up =
     \<lparr>movie_titles = [''Up''], questions = [movie ''Up'' [''PU'', ''UP'']], max_guesses = 3\<rparr>"

section \<open>Properties\<close>

subsection \<open>Sampling\<close>

lemma shift_shift: "shift a (shift b g) = shift (a + b) g"
  by (simp add: shift_def add.assoc)

lemma shift_0: "shift 0 g = g"
  by (simp add: shift_def)

lemma mset_remove_pool:
  assumes "j < length pool"
  shows "mset (butlast (pool[j := last pool])) + {#pool ! j#} = mset pool"
proof (cases pool rule: rev_cases)
  case Nil
  with assms show ?thesis by simp
next
  case (snoc xs l)
  show ?thesis
  proof (cases "j = length xs")
    case True
    then show ?thesis using snoc by simp
  next
    case False
    then have j: "j < length xs" using assms snoc by simp
    then have "xs ! j \<in># mset xs" by simp
    then show ?thesis using snoc j
      by (simp add: list_update_append nth_append mset_update)
  qed
qed

lemma sample_pool_mset:
  "length pool = k \<Longrightarrow> mset (fst (sample_pool k g pool)) = mset pool"
proof (induction k arbitrary: g pool)
  case 0
  then show ?case by simp
next
  case (Suc k)
  then have ne: "pool \<noteq> []" by auto
  let ?j = "g 0 mod length pool"
  have j: "?j < length pool" using ne by simp
  have len: "length (butlast (pool[?j := last pool])) = k" using Suc.prems by simp
  show ?case
    using ne Suc.IH [OF len, of "shift 1 g"] mset_remove_pool [OF j]
    by (simp add: randbelow_def case_prod_beta)
qed

lemma sample_pool_rng:
  "length pool = k \<Longrightarrow> snd (sample_pool k g pool) = shift k g"
proof (induction k arbitrary: g pool)
  case 0
  then show ?case by (simp add: shift_0)
next
  case (Suc k)
  then have ne: "pool \<noteq> []" by auto
  let ?j = "g 0 mod length pool"
  have len: "length (butlast (pool[?j := last pool])) = k" using Suc.prems by simp
  show ?case
    using ne Suc.IH [OF len, of "shift 1 g"]
    by (simp add: randbelow_def shift_shift case_prod_beta)
qed

text \<open>A sample of the whole population is a permutation of it, and reads one number for each element.\<close>

lemma sample_mset: "mset (fst (sample g w)) = mset w"
  by (simp add: sample_def sample_pool_mset)

lemma sample_rng: "snd (sample g w) = shift (length w) g"
  by (simp add: sample_def sample_pool_rng)

lemma draw_mset: "mset (draw k g w) = mset w"
  by (simp add: draw_def sample_mset)

lemma draw_Suc: "draw n (shift (length w) g) w = draw (Suc n) g w"
  by (simp add: draw_def shift_shift add.commute)

text \<open>A word whose characters are all the same has one permutation only.\<close>

lemma one_char_permutation:
  assumes "set w \<subseteq> {c}" and "mset y = mset w"
  shows "y = w"
proof -
  have "length y = length w" using assms(2) by (rule mset_eq_length)
  moreover have "set y = set w" using assms(2) by (rule mset_eq_setD)
  ultimately have "y = replicate (length w) c" using assms(1)
    by (intro replicate_eqI) auto
  moreover have "w = replicate (length w) c" using assms(1)
    by (intro replicate_eqI) auto
  ultimately show ?thesis by simp
qed

subsection \<open>The loop of \<^verbatim>\<open>_scramble_word\<close>\<close>

lemma scramble_loop_hit:
  "i < 10 \<Longrightarrow> fst (sample g w) \<noteq> w \<Longrightarrow>
   scramble_loop i g w = Some (fst (sample g w), shift (length w) g)"
  using sample_rng [of g w]
  by (subst scramble_loop.simps) (simp add: case_prod_beta)

lemma scramble_loop_miss:
  "i < 10 \<Longrightarrow> fst (sample g w) = w \<Longrightarrow>
   scramble_loop i g w = scramble_loop i (shift (length w) g) w"
  using sample_rng [of g w]
  by (subst scramble_loop.simps) (simp add: case_prod_beta)

text \<open>If some turn draws a permutation other than the word, the loop returns the first such.\<close>

lemma scramble_loop_returns:
  "i < 10 \<Longrightarrow> draw k g w \<noteq> w \<Longrightarrow>
   \<exists>n\<le>k. draw n g w \<noteq> w \<and> scramble_loop i g w = Some (draw n g w, shift (Suc n * length w) g)"
proof (induction k arbitrary: g)
  case 0
  then show ?case
    using scramble_loop_hit [of i g w] by (simp add: draw_def shift_0)
next
  case (Suc k)
  show ?case
  proof (cases "fst (sample g w) = w")
    case False
    then have "scramble_loop i g w = Some (draw 0 g w, shift (Suc 0 * length w) g)"
      and "draw 0 g w \<noteq> w"
      using Suc.prems(1) scramble_loop_hit [of i g w] by (simp_all add: draw_def shift_0)
    then show ?thesis by blast
  next
    case True
    let ?g = "shift (length w) g"
    have "draw k ?g w \<noteq> w" using Suc.prems(2) by (simp add: draw_Suc)
    from Suc.IH [OF Suc.prems(1) this]
    obtain n where n: "n \<le> k" "draw n ?g w \<noteq> w"
      "scramble_loop i ?g w = Some (draw n ?g w, shift (Suc n * length w) ?g)"
      by blast
    have "scramble_loop i g w = scramble_loop i ?g w"
      using True Suc.prems(1) by (rule scramble_loop_miss [rotated])
    then have "scramble_loop i g w = Some (draw (Suc n) g w, shift (Suc (Suc n) * length w) g)"
      using n(3) by (simp add: draw_Suc shift_shift ac_simps)
    moreover have "draw (Suc n) g w \<noteq> w" using n(2) by (simp add: draw_Suc)
    ultimately show ?thesis using n(1) by (metis Suc_le_mono)
  qed
qed

text \<open>If the loop returns, some turn has drawn a permutation other than the word.\<close>

lemma scramble_loop_Some:
  "scramble_loop i g w = Some y \<Longrightarrow> i < 10 \<Longrightarrow> \<exists>k. draw k g w \<noteq> w"
proof (induction i g w y rule: scramble_loop.raw_induct [rotated 1, consumes 1, case_names step])
  case (step f i g word y)
  show ?case
  proof (cases "fst (sample g word) = word")
    case False
    then have "draw 0 g word \<noteq> word" by (simp add: draw_def shift_0)
    then show ?thesis by blast
  next
    case True
    have "sample g word = (word, shift (length word) g)"
      using True sample_rng [of g word] by (metis prod.collapse)
    then have "f i (shift (length word) g) word = Some y"
      using step(2,3) by simp
    from step(1) [OF this step(3)]
    obtain k where "draw k (shift (length word) g) word \<noteq> word" by blast
    then have "draw (Suc k) g word \<noteq> word" by (simp add: draw_Suc)
    then show ?thesis by blast
  qed
qed

text \<open>
  So \<^verbatim>\<open>_scramble_word\<close> returns exactly when some turn draws a permutation other than
  the word, however many turns that takes.
\<close>

lemma scramble_word_None_iff:
  "scramble_word g w = None \<longleftrightarrow> (\<forall>k. draw k g w = w)"
proof
  assume "scramble_word g w = None"
  then show "\<forall>k. draw k g w = w"
    using scramble_loop_returns [of 0 _ g w] by (fastforce simp: scramble_word_def)
next
  assume "\<forall>k. draw k g w = w"
  then show "scramble_word g w = None"
    using scramble_loop_Some [of 0 g w] by (cases "scramble_word g w") (auto simp: scramble_word_def)
qed

lemma scramble_word_one_char:
  assumes "set w \<subseteq> {c}"
  shows "scramble_word g w = None"
proof -
  have "draw k g w = w" for k
    using assms draw_mset [of k g w] by (rule one_char_permutation)
  then show ?thesis by (simp add: scramble_word_None_iff)
qed

text \<open>
  C2. The claim: \<^verbatim>\<open>_scramble_word\<close> ends after at most 10 attempts and returns the word
  itself when every attempt has drawn it, in particular for a word of one character and
  for the empty word. The code: the counter of the loop is never increased, so on the word
  \<^verbatim>\<open>A\<close>, and on the empty word, the call does not return, whatever the generator draws.
\<close>

theorem scramble_word_single_char_diverges:
  "scramble_word g ''A'' = None \<and> scramble_word g [] = None"
proof
  show "scramble_word g ''A'' = None"
    by (rule scramble_word_one_char [of _ "CHR ''A''"]) simp
  show "scramble_word g [] = None"
    by (rule scramble_word_one_char [of _ "CHR ''A''"]) simp
qed

text \<open>
  On the runs that return, the value is the first draw other than the word: a permutation
  of its characters.
\<close>

lemma scramble_word_returns_other_draw:
  assumes "draw k g w \<noteq> w"
  shows "\<exists>y g'. scramble_word g w = Some (y, g') \<and> mset y = mset w \<and> y \<noteq> w"
proof -
  from scramble_loop_returns [OF _ assms, of 0]
  obtain n where "draw n g w \<noteq> w"
    and "scramble_word g w = Some (draw n g w, shift (Suc n * length w) g)"
    by (auto simp: scramble_word_def)
  then show ?thesis using draw_mset [of n g w] by blast
qed

lemma scramble_word_Some_permutation:
  assumes "scramble_word g w = Some (y, g')"
  shows "mset y = mset w \<and> y \<noteq> w"
proof -
  from assms have "scramble_word g w \<noteq> None" by simp
  then obtain k where "draw k g w \<noteq> w" by (auto simp: scramble_word_None_iff)
  from scramble_word_returns_other_draw [OF this] assms show ?thesis by auto
qed

lemma scramble_word_ones_ab:
  "\<exists>y g'. scramble_word ones ''ab'' = Some (y, g') \<and> mset y = mset ''ab'' \<and> y \<noteq> ''ab''"
proof -
  have "draw 0 ones ''ab'' \<noteq> ''ab''"
    by (simp add: draw_def sample_def randbelow_def shift_def ones_def numeral_2_eq_2)
  then show ?thesis by (rule scramble_word_returns_other_draw)
qed



subsection \<open>\<^verbatim>\<open>Movie.random_anagram\<close>\<close>

lemma choice_Inr:
  "seq \<noteq> [] \<Longrightarrow> \<exists>a. choice g seq = Inr (a, shift 1 g) \<and> a \<in> set seq"
  by (simp add: choice_def randbelow_def)

text \<open>
  C1, as amended. \<^verbatim>\<open>random_anagram\<close> has no fallback: as long as some anagram of the
  pool is not in \<^verbatim>\<open>_spent\<close> it returns such an anagram and appends it to \<^verbatim>\<open>_spent\<close>;
  once every anagram of the pool is in \<^verbatim>\<open>_spent\<close> it raises \<^verbatim>\<open>IndexError\<close>.
\<close>

theorem random_anagram_unspent_or_raises:
  "(if set (anagrams m) \<subseteq> set (spent m) then random_anagram m g = Inl IndexError
    else \<exists>a g'. random_anagram m g = Inr (a, m\<lparr>spent := spent m @ [a]\<rparr>, g') \<and>
           a \<in> set (anagrams m) \<and> a \<notin> set (spent m))"
proof (cases "set (anagrams m) \<subseteq> set (spent m)")
  case True
  then have "filter (\<lambda>x. x \<notin> set (spent m)) (anagrams m) = []"
    by (auto simp: filter_empty_conv)
  then show ?thesis using True by (simp add: random_anagram_def choice_def)
next
  case False
  let ?unspent = "filter (\<lambda>x. x \<notin> set (spent m)) (anagrams m)"
  have "?unspent \<noteq> []" using False by (auto simp: filter_empty_conv)
  from choice_Inr [OF this, of g]
  obtain a where "choice g ?unspent = Inr (a, shift 1 g)" and "a \<in> set ?unspent" by blast
  then show ?thesis using False by (auto simp: random_anagram_def)
qed

theorem random_anagram_unspent_or_raises_witness:
  "random_anagram ((movie ''Up'' [''PU'', ''UP''])\<lparr>spent := [''PU'']\<rparr>) zeros
     = Inr (''UP'', (movie ''Up'' [''PU'', ''UP''])\<lparr>spent := [''PU'', ''UP'']\<rparr>, shift 1 zeros) \<and>
   random_anagram ((movie ''Up'' [''PU'', ''UP''])\<lparr>spent := [''PU'', ''UP'']\<rparr>) zeros
     = Inl IndexError"
proof
  have "\<not> set (anagrams ((movie ''Up'' [''PU'', ''UP''])\<lparr>spent := [''PU'']\<rparr>))
          \<subseteq> set (spent ((movie ''Up'' [''PU'', ''UP''])\<lparr>spent := [''PU'']\<rparr>))"
    by (simp add: movie_def)
  with random_anagram_unspent_or_raises [of "(movie ''Up'' [''PU'', ''UP''])\<lparr>spent := [''PU'']\<rparr>" zeros]
  obtain a g' where
    r: "random_anagram ((movie ''Up'' [''PU'', ''UP''])\<lparr>spent := [''PU'']\<rparr>) zeros =
          Inr (a, (movie ''Up'' [''PU'', ''UP''])\<lparr>spent := [''PU''] @ [a]\<rparr>, g')"
    and a: "a \<in> {''PU'', ''UP''}" "a \<noteq> ''PU''"
    by (auto simp: movie_def)
  have "g' = shift 1 zeros"
    using r by (simp add: random_anagram_def choice_def randbelow_def movie_def)
  with r a
  show "random_anagram ((movie ''Up'' [''PU'', ''UP''])\<lparr>spent := [''PU'']\<rparr>) zeros
     = Inr (''UP'', (movie ''Up'' [''PU'', ''UP''])\<lparr>spent := [''PU'', ''UP'']\<rparr>, shift 1 zeros)"
    by auto
next
  show "random_anagram ((movie ''Up'' [''PU'', ''UP''])\<lparr>spent := [''PU'', ''UP'']\<rparr>) zeros
     = Inl IndexError"
    using random_anagram_unspent_or_raises [of "(movie ''Up'' [''PU'', ''UP''])\<lparr>spent := [''PU'', ''UP'']\<rparr>" zeros]
    by (simp add: movie_def)
qed

text \<open>
  C1, as claimed, fails: on a pool of one anagram the first call returns it and the second
  call, one more than the size of the pool, raises \<^verbatim>\<open>IndexError\<close>.
\<close>

theorem random_anagram_raises_counterexample:
  "random_anagram (movie ''Up'' [''PU'']) zeros
     = Inr (''PU'', (movie ''Up'' [''PU''])\<lparr>spent := [''PU'']\<rparr>, shift 1 zeros) \<and>
   random_anagram ((movie ''Up'' [''PU''])\<lparr>spent := [''PU'']\<rparr>) (shift 1 zeros)
     = Inl IndexError"
  by (simp add: random_anagram_def choice_def randbelow_def movie_def zeros_def)

subsection \<open>\<^verbatim>\<open>MovieQuiz.__init__\<close>\<close>

lemma shuffle_Nil: "shuffle g [] = ([], g)"
  by (simp add: shuffle_def)

lemma generate_quiz_Nil: "generate_quiz g [] = Some ([], g)"
  by (simp add: generate_quiz_def shuffle_Nil)

text \<open>
  C3, as amended. The constructor raises what opening or reading the file raises, when the
  file is missing or unreadable: the exception reaches the caller, nothing is tried again.
  On an empty file it does not raise: it returns a quiz with no questions.
\<close>

theorem init_load_error:
  "(fs (path_join dir filename) = Inl err \<longrightarrow> init fs dir g filename mg = Some (Inl err)) \<and>
   (fs (path_join dir filename) = Inr [] \<longrightarrow>
      init fs dir g filename mg =
        Some (Inr (\<lparr>movie_titles = [], questions = [], max_guesses = mg\<rparr>, g)))"
  by (simp add: init_def load_movie_titles_def splitlines_def generate_quiz_Nil)

theorem init_load_error_witness:
  "init (only_file ''/app/movies.txt'' []) ''/app'' zeros ''films.txt'' 3
     = Some (Inl FileNotFoundError) \<and>
   init (only_file ''/app/movies.txt'' []) ''/app'' zeros ''movies.txt'' 3
     = Some (Inr (\<lparr>movie_titles = [], questions = [], max_guesses = 3\<rparr>, zeros))"
proof -
  have a: "only_file ''/app/movies.txt'' [] (path_join ''/app'' ''films.txt'') = Inl FileNotFoundError"
    by (simp add: only_file_def path_join_def)
  have b: "only_file ''/app/movies.txt'' [] (path_join ''/app'' ''movies.txt'') = Inr []"
    by (simp add: only_file_def path_join_def)
  show ?thesis
    using init_load_error [of "only_file ''/app/movies.txt'' []" "''/app''" "''films.txt''"
        FileNotFoundError zeros 3]
      init_load_error [of "only_file ''/app/movies.txt'' []" "''/app''" "''movies.txt''"
        FileNotFoundError zeros 3] a b
    by simp
qed

text \<open>
  C3, as claimed, fails: with an empty \<^verbatim>\<open>movies.txt\<close> beside the program the constructor
  returns a quiz and raises nothing.
\<close>

theorem init_empty_file_counterexample:
  "init (only_file ''/app/movies.txt'' []) ''/app'' zeros ''movies.txt'' 3
     = Some (Inr (\<lparr>movie_titles = [], questions = [], max_guesses = 3\<rparr>, zeros))"
  by (simp add: init_def load_movie_titles_def splitlines_def generate_quiz_Nil
      only_file_def path_join_def)

subsection \<open>The attempt loop\<close>

lemma same_entry_refl: "same_entry q q"
  by (simp add: same_entry_def)

lemma same_entry_trans: "same_entry a b \<Longrightarrow> same_entry b c \<Longrightarrow> same_entry a c"
  by (cases a, cases b, cases c) (simp add: same_entry_def)

lemma same_entry_iff: "same_entry q q' \<longleftrightarrow> title q' = title q \<and> anagrams q' = anagrams q"
  by (cases q, cases q') (auto simp: same_entry_def)

lemma show_anagram_Inr:
  "show_anagram q r e = Inr (q1, e1) \<Longrightarrow>
   stdin e1 = stdin e \<and> title q1 = title q \<and> anagrams q1 = anagrams q \<and>
   correct_guess q1 = correct_guess q"
  by (auto simp: show_anagram_def random_anagram_def print_def
      split: if_splits sum.splits prod.splits)

lemma match_answer_frame:
  "match_answer q a = (q2, r, ms) \<Longrightarrow>
   title q2 = title q \<and> anagrams q2 = anagrams q \<and> spent q2 = spent q"
  by (auto simp: match_answer_def split: if_splits)


lemma guess_loop_same_entry:
  "guess_loop mg xs q r e = (q', e', out) \<Longrightarrow> same_entry q q'"
proof (induction xs arbitrary: q r e)
  case Nil
  then show ?case by (simp add: same_entry_refl)
next
  case (Cons x xs)
  show ?case
  proof (cases "show_anagram q r e")
    case (Inl err)
    then show ?thesis using Cons.prems by (simp add: same_entry_refl)
  next
    case (Inr p)
    obtain q1 e1 where p: "p = (q1, e1)" by (cases p)
    have s1: "same_entry q q1"
      using show_anagram_Inr [of q r e q1 e1] Inr p by (simp add: same_entry_iff)
    obtain e2 ans where gi: "get_input (GuessPrompt (x + 1) mg) e1 = (e2, ans)"
      by (cases "get_input (GuessPrompt (x + 1) mg) e1")
    show ?thesis
    proof (cases ans)
      case (Inl err)
      then show ?thesis using Cons.prems Inr p gi s1 by simp
    next
      case (Inr answer)
      obtain q2 r' ms where m: "match_answer q1 answer = (q2, r', ms)"
        by (cases "match_answer q1 answer")
      have s2: "same_entry q q2"
        using match_answer_frame [OF m] s1 by (simp add: same_entry_iff)
      show ?thesis
      proof (cases "r' = CORRECT \<or> r' = PASS")
        case True
        then show ?thesis using Cons.prems \<open>show_anagram q r e = Inr p\<close> p gi Inr m s2 by auto
      next
        case False
        then have "guess_loop mg xs q2 r' (print ms e2) = (q', e', out)"
          using Cons.prems \<open>show_anagram q r e = Inr p\<close> p gi Inr m by simp
        from Cons.IH [OF this] s2 show ?thesis by (rule same_entry_trans [rotated])
      qed
    qed
  qed
qed

lemma ask_same_entry: "ask mg n i q e = (q', e', out) \<Longrightarrow> same_entry q q'"
  by (auto simp: ask_def split: prod.splits sum.splits dest: guess_loop_same_entry)

lemma ask_all_same_entry:
  "ask_all mg n i qs e = (qs', e', out) \<Longrightarrow> list_all2 same_entry qs qs'"
proof (induction qs arbitrary: i e qs' e' out)
  case Nil
  then show ?case by simp
next
  case (Cons q qs)
  then show ?case
    by (auto split: prod.splits option.splits dest: ask_same_entry
        simp: list_all2_same same_entry_refl list.rel_refl)
qed






lemma match_answer_reserved_title:
  assumes "title_lower q = ''next'' \<or> title_lower q = ''pass''"
  shows "fst (snd (match_answer q a)) \<noteq> CORRECT \<and> fst (match_answer q a) = q"
  using assms by (auto simp: match_answer_def)

lemma guess_loop_reserved_title:
  assumes "guess_loop mg xs q r e = (q', e', out)"
    and "title_lower q = ''next'' \<or> title_lower q = ''pass''"
  shows "correct_guess q' = correct_guess q \<and> (r \<noteq> CORRECT \<longrightarrow> out \<noteq> Inr CORRECT)"
  using assms
proof (induction xs arbitrary: q r e)
  case Nil
  then show ?case by auto
next
  case (Cons x xs)
  show ?case
  proof (cases "show_anagram q r e")
    case (Inl err)
    then show ?thesis using Cons.prems(1) by auto
  next
    case (Inr p)
    obtain q1 e1 where p: "p = (q1, e1)" by (cases p)
    have sa: "show_anagram q r e = Inr (q1, e1)" using Inr p by simp
    have s1: "title q1 = title q" "correct_guess q1 = correct_guess q"
      using show_anagram_Inr [OF sa] by simp_all
    then have t1: "title_lower q1 = ''next'' \<or> title_lower q1 = ''pass''"
      using Cons.prems(2) by (simp add: title_lower_def)
    obtain e2 ans where gi: "get_input (GuessPrompt (x + 1) mg) e1 = (e2, ans)"
      by (cases "get_input (GuessPrompt (x + 1) mg) e1")
    show ?thesis
    proof (cases ans)
      case (Inl err)
      then show ?thesis using Cons.prems(1) sa gi s1 by auto
    next
      case (Inr answer)
      obtain q2 r' ms where m: "match_answer q1 answer = (q2, r', ms)"
        by (cases "match_answer q1 answer")
      have m2: "r' \<noteq> CORRECT" "q2 = q1"
        using match_answer_reserved_title [OF t1, of answer] m by simp_all
      show ?thesis
      proof (cases "r' = PASS")
        case True
        then show ?thesis using Cons.prems(1) sa gi Inr m m2 s1 by auto
      next
        case False
        then have "guess_loop mg xs q1 r' (print ms e2) = (q', e', out)"
          using Cons.prems(1) sa gi Inr m m2 by simp
        from Cons.IH [OF this t1] m2 s1 show ?thesis by simp
      qed
    qed
  qed
qed

subsection \<open>Evaluating the examples\<close>

lemmas string_defs = lower_def lower_char_def upper_def upper_char_def char_of_def bit_0
  strip_def isspace_def title_lower_def

lemmas run_defs = show_anagram_def random_anagram_def choice_def randbelow_def shift_def
  zeros_def get_input_def print_def match_answer_def guess_line_def turn_result_def
  movie_def console_def ask_def start_def summary_def

lemma upt3: "[0..<3] = [0, 1, 2::nat]"
  by (simp add: upt_rec)

subsection \<open>Reserved words and guesses\<close>

text \<open>
  C4. The reserved words win over the title. A line that is \<^verbatim>\<open>next\<close> or \<^verbatim>\<open>pass\<close> once
  stripped and lower-cased is never a correct guess and leaves the question as it is,
  whatever the title; and on a question whose title lower-cases to \<^verbatim>\<open>next\<close> or
  \<^verbatim>\<open>pass\<close> the attempt loop never sets \<^verbatim>\<open>correct_guess\<close> and never ends with
  \<^verbatim>\<open>CORRECT\<close>, whatever the user types.
\<close>

theorem reserved_words_never_correct:
  "(lower (strip s) = ''next'' \<or> lower (strip s) = ''pass'' \<longrightarrow>
      fst (snd (guess_line q s)) \<noteq> CORRECT \<and> fst (guess_line q s) = q) \<and>
   (title_lower q = ''next'' \<or> title_lower q = ''pass'' \<longrightarrow>
      correct_guess (fst (guess_loop mg xs q DEFAULT e)) = correct_guess q \<and>
      snd (snd (guess_loop mg xs q DEFAULT e)) \<noteq> Inr CORRECT)"
proof (intro conjI impI)
  assume "lower (strip s) = ''next'' \<or> lower (strip s) = ''pass''"
  then show "fst (snd (guess_line q s)) \<noteq> CORRECT" "fst (guess_line q s) = q"
    by (auto simp: guess_line_def match_answer_def)
next
  assume t: "title_lower q = ''next'' \<or> title_lower q = ''pass''"
  obtain q' e' out where g: "guess_loop mg xs q DEFAULT e = (q', e', out)"
    by (cases "guess_loop mg xs q DEFAULT e")
  from guess_loop_reserved_title [OF g t]
  show "correct_guess (fst (guess_loop mg xs q DEFAULT e)) = correct_guess q"
    and "snd (snd (guess_loop mg xs q DEFAULT e)) \<noteq> Inr CORRECT"
    using g by simp_all
qed

theorem reserved_words_never_correct_witness:
  "lower (strip '' NEXT '') = ''next'' \<and>
   fst (snd (guess_line (movie ''Next'' [''XTEN'']) '' NEXT '')) \<noteq> CORRECT \<and>
   title_lower (movie ''Next'' [''XTEN'']) = ''next'' \<and>
   correct_guess (fst (guess_loop 3 [0, 1, 2] (movie ''Next'' [''XTEN'']) DEFAULT
     (console zeros [Line ''Next'', Line ''next'']))) = False"
proof -
  have a: "lower (strip '' NEXT '') = ''next''" by (simp add: string_defs)
  have b: "title_lower (movie ''Next'' [''XTEN'']) = ''next''"
    by (simp add: string_defs movie_def)
  have c: "correct_guess (movie ''Next'' [''XTEN'']) = False" by (simp add: movie_def)
  from reserved_words_never_correct [of "'' NEXT ''" "movie ''Next'' [''XTEN'']" 3 "[0, 1, 2]"
      "console zeros [Line ''Next'', Line ''next'']"] a b c
  show ?thesis by simp
qed

text \<open>
  C6, as amended. A line is accepted as a correct guess exactly when, stripped and
  lower-cased, it equals the lower-cased title and is neither \<^verbatim>\<open>next\<close> nor \<^verbatim>\<open>pass\<close>;
  then, and only then, \<^verbatim>\<open>correct_guess\<close> is set.
\<close>

theorem guess_correct_iff:
  "(fst (snd (guess_line q s)) = CORRECT \<longleftrightarrow>
      lower (strip s) = lower (title q) \<and> lower (strip s) \<noteq> ''next'' \<and> lower (strip s) \<noteq> ''pass'') \<and>
   fst (guess_line q s) = (if fst (snd (guess_line q s)) = CORRECT then q\<lparr>correct_guess := True\<rparr> else q)"
  by (simp add: guess_line_def match_answer_def title_lower_def)

theorem guess_correct_iff_witness:
  "fst (snd (guess_line (movie ''Inception'' []) '' Inception '')) = CORRECT \<and>
   fst (snd (guess_line (movie ''Inception'' []) ''inception'')) = CORRECT \<and>
   fst (snd (guess_line (movie ''Inception'' []) ''Interstellar'')) \<noteq> CORRECT \<and>
   fst (snd (guess_line (movie (''Am'' @ [CHR 0xE9] @ ''lie'') []) (''AM'' @ [CHR 0xC9] @ ''LIE'')))
     = CORRECT"
proof -
  have "lower (strip '' Inception '') = ''inception''" "lower (strip ''inception'') = ''inception''"
    "lower (strip ''Interstellar'') = ''interstellar''" "lower (title (movie ''Inception'' [])) = ''inception''"
    by (simp_all add: string_defs movie_def)
  moreover have "lower (strip (''AM'' @ [CHR 0xC9] @ ''LIE'')) = ''am'' @ [CHR 0xE9] @ ''lie''"
    "lower (title (movie (''Am'' @ [CHR 0xE9] @ ''lie'') [])) = ''am'' @ [CHR 0xE9] @ ''lie''"
    by (simp_all add: string_defs movie_def)
  ultimately show ?thesis
    using guess_correct_iff [of "movie ''Inception'' []" "'' Inception ''"]
      guess_correct_iff [of "movie ''Inception'' []" "''inception''"]
      guess_correct_iff [of "movie ''Inception'' []" "''Interstellar''"]
      guess_correct_iff [of "movie (''Am'' @ [CHR 0xE9] @ ''lie'') []" "''AM'' @ [CHR 0xC9] @ ''LIE''"]
    by simp
qed

text \<open>
  C6, as claimed, fails on the title \<^verbatim>\<open>Next\<close>: the line \<^verbatim>\<open>next\<close> equals the title once
  stripped and lower-cased, and the result is \<^verbatim>\<open>DEFAULT\<close>, not \<^verbatim>\<open>CORRECT\<close>.
\<close>

theorem guess_own_title_counterexample:
  "lower (strip ''next'') = lower (title (movie ''Next'' [])) \<and>
   fst (snd (guess_line (movie ''Next'' []) ''next'')) = DEFAULT"
  by (simp add: string_defs run_defs)

subsection \<open>The attempt slots\<close>



subsection \<open>The summary\<close>

lemma length_filter_all: "length (filter P xs) = length xs \<longleftrightarrow> list_all P xs"
proof (induction xs)
  case Nil
  then show ?case by simp
next
  case (Cons x xs)
  have "length (filter P xs) \<noteq> Suc (length xs)"
    using length_filter_le [of P xs] by linarith
  with Cons show ?case by auto
qed

lemma summary_cases:
  "(summary qs = [AllRight] \<longleftrightarrow> list_all correct_guess qs) \<and>
   (summary qs = [AllWrong] \<longleftrightarrow> length (filter correct_guess qs) = 0 \<and> qs \<noteq> []) \<and>
   (\<not> list_all correct_guess qs \<and> length (filter correct_guess qs) \<noteq> 0 \<longrightarrow>
      summary qs = [NotBad, RightWrong (int (length (filter correct_guess qs)))
                      (int (length qs) - int (length (filter correct_guess qs)))])"
  using length_filter_all [of correct_guess qs]
  by (auto simp: summary_def Let_def)

lemma start_summary:
  "start quiz e = (quiz', e', None) \<Longrightarrow>
   \<exists>pre. stdout e' = pre @ [Clear, AllDone] @ summary (questions quiz') @ [Blank]"
  by (auto simp: start_def print_def split: prod.splits option.splits)

text \<open>
  C8, as amended. The summary counts the questions with \<^verbatim>\<open>correct_guess\<close> set; the
  number of wrong ones is the number of questions minus that count. The message is the
  celebration exactly when every question is correct, the commiseration exactly when no
  question is correct and there is at least one question, and otherwise the neutral message
  with both counts. When \<^verbatim>\<open>start\<close> returns, the summary of the final questions is the end
  of what it has printed.
\<close>

theorem summary_by_ratio:
  "(summary qs = [AllRight] \<longleftrightarrow> list_all correct_guess qs) \<and>
   (summary qs = [AllWrong] \<longleftrightarrow> length (filter correct_guess qs) = 0 \<and> qs \<noteq> []) \<and>
   (\<not> list_all correct_guess qs \<and> length (filter correct_guess qs) \<noteq> 0 \<longrightarrow>
      summary qs = [NotBad, RightWrong (int (length (filter correct_guess qs)))
                      (int (length qs) - int (length (filter correct_guess qs)))]) \<and>
   (snd (snd (start quiz e)) = None \<longrightarrow>
      (\<exists>pre. stdout (fst (snd (start quiz e))) =
         pre @ [Clear, AllDone] @ summary (questions (fst (start quiz e))) @ [Blank]))"
proof -
  obtain quiz' e' out where s: "start quiz e = (quiz', e', out)" by (cases "start quiz e")
  show ?thesis using summary_cases [of qs] start_summary [of quiz e quiz' e'] s by simp
qed

theorem summary_by_ratio_witness:
  "snd (snd (start quiz_up (console zeros [Line ''x'', Line ''up'', Line '''']))) = None \<and>
   summary (questions (fst (start quiz_up (console zeros [Line ''x'', Line ''up'', Line ''''])))) = [AllRight] \<and>
   list_all correct_guess (questions (fst (start quiz_up (console zeros [Line ''x'', Line ''up'', Line '''']))))"
proof -
  have run: "start quiz_up (console zeros [Line ''x'', Line ''up'', Line '''']) =
   (quiz_up\<lparr>questions := [(movie ''Up'' [''PU'', ''UP''])\<lparr>correct_guess := True, spent := [''PU'']\<rparr>]\<rparr>,
    \<lparr>random = zeros, stdin = [],
      stdout = [Clear, WhichMovie 1 1, TypeNextOrPass, Anagram ''PU'', GuessPrompt 1 3, IncorrectMsg,
        GuessPrompt 2 3, CorrectMsg, PressEnter, Clear, AllDone, AllRight, Blank]\<rparr>, None)"
    by (simp add: quiz_up_def upt3 run_defs string_defs)
  have s: "summary [(movie ''Up'' [''PU'', ''UP''])\<lparr>correct_guess := True, spent := [''PU'']\<rparr>] = [AllRight]"
    by (simp add: summary_def movie_def)
  from summary_by_ratio [of "[(movie ''Up'' [''PU'', ''UP''])\<lparr>correct_guess := True, spent := [''PU'']\<rparr>]"
      quiz_up "console zeros [Line ''x'', Line ''up'', Line '''']"] s
  have "list_all correct_guess [(movie ''Up'' [''PU'', ''UP''])\<lparr>correct_guess := True, spent := [''PU'']\<rparr>]"
    by blast
  with run s show ?thesis by simp
qed

text \<open>
  C8, as claimed, fails on the quiz with no questions: no question is correct, and the
  message is the celebration, not the commiseration.
\<close>

theorem summary_no_entries_counterexample:
  "length (filter correct_guess ([] :: Movie list)) = 0 \<and> summary [] = [AllRight] \<and>
   summary [] \<noteq> [AllWrong]"
  by (simp add: summary_def)

text \<open>
  C10. On a quiz with no questions \<^verbatim>\<open>start\<close> returns without an exception, reads
  nothing, and prints the celebration.
\<close>

theorem start_no_questions:
  "start (quiz\<lparr>questions := []\<rparr>) e =
     (quiz\<lparr>questions := []\<rparr>, print [Clear, AllDone, AllRight, Blank] e, None)"
  by (simp add: start_def summary_def)

subsection \<open>Building the quiz\<close>

text \<open>
  \<^verbatim>\<open>_generate_quiz\<close> builds one entry for each title, in the order of the titles, and
  shuffles the list once: when it returns, the titles of the entries are a permutation of
  the titles read.
\<close>

lemma shuffle_from_mset:
  "n \<le> length x \<Longrightarrow> mset (fst (shuffle_from n g x)) = mset x"
proof (induction n arbitrary: g x)
  case 0
  then show ?case by simp
next
  case (Suc i)
  show ?case
  proof (cases "i = 0")
    case True
    then show ?thesis by simp
  next
    case False
    let ?j = "g 0 mod Suc i"
    have i: "i < length x" using Suc.prems by simp
    have j: "?j < length x" using i by (meson le_less_trans less_Suc_eq_le mod_less_divisor zero_less_Suc)
    have "mset (x[i := x ! ?j, ?j := x ! i]) = mset x" by (rule mset_swap [OF j i])
    moreover have "i \<le> length (x[i := x ! ?j, ?j := x ! i])" using i by simp
    ultimately show ?thesis
      using False Suc.IH [of "x[i := x ! ?j, ?j := x ! i]" "shift 1 g"]
      by (simp add: randbelow_def)
  qed
qed

lemma shuffle_mset: "mset (fst (shuffle g x)) = mset x"
  by (simp add: shuffle_def shuffle_from_mset)

lemma append_anagrams_title:
  "append_anagrams n g m = Some (m', g') \<Longrightarrow> title m' = title m"
proof (induction n arbitrary: g m)
  case 0
  then show ?case by simp
next
  case (Suc n)
  then show ?case by (auto split: option.splits)
qed

lemma build_questions_titles:
  "build_questions g ts qs = Some (qs', g') \<Longrightarrow> map title qs' = map title qs @ ts"
proof (induction ts arbitrary: g qs)
  case Nil
  then show ?case by simp
next
  case (Cons t ts)
  then show ?case by (auto split: option.splits dest: append_anagrams_title)
qed

lemma generate_quiz_titles:
  assumes "generate_quiz g titles = Some (qs, g')"
  shows "mset (map title qs) = mset titles"
proof -
  from assms obtain built g1 where b: "build_questions g titles [] = Some (built, g1)"
    and s: "shuffle g1 built = (qs, g')"
    by (auto simp: generate_quiz_def split: option.splits)
  have "mset qs = mset built" using shuffle_mset [of g1 built] s by simp
  then have "mset (map title qs) = mset (map title built)" by (metis mset_map)
  then show ?thesis using build_questions_titles [OF b] by simp
qed

subsection \<open>What \<^verbatim>\<open>start\<close> leaves unchanged\<close>

lemma list_all2_same_entry_maps:
  "list_all2 same_entry qs qs' \<Longrightarrow>
   map title qs' = map title qs \<and> map anagrams qs' = map anagrams qs"
  by (induction rule: list_all2_induct) (simp_all add: same_entry_iff)

text \<open>
  C9. \<^verbatim>\<open>start\<close> never reorders the questions: whether it returns or an exception ends it,
  the list of questions has the same entries in the same places, each changed at most in
  \<^verbatim>\<open>correct_guess\<close> and \<^verbatim>\<open>_spent\<close>; titles, anagram pools, the list of titles and
  \<^verbatim>\<open>max_guesses\<close> are as before.
\<close>

theorem start_keeps_entries:
  "list_all2 same_entry (questions quiz) (questions (fst (start quiz e))) \<and>
   map title (questions (fst (start quiz e))) = map title (questions quiz) \<and>
   map anagrams (questions (fst (start quiz e))) = map anagrams (questions quiz) \<and>
   movie_titles (fst (start quiz e)) = movie_titles quiz \<and>
   max_guesses (fst (start quiz e)) = max_guesses quiz"
proof -
  obtain qs e1 r where a: "ask_all (max_guesses quiz) (length (questions quiz)) 0 (questions quiz) e = (qs, e1, r)"
    by (cases "ask_all (max_guesses quiz) (length (questions quiz)) 0 (questions quiz) e")
  have q: "questions (fst (start quiz e)) = qs"
    and "movie_titles (fst (start quiz e)) = movie_titles quiz"
    and "max_guesses (fst (start quiz e)) = max_guesses quiz"
    using a by (cases r; simp add: start_def)+
  moreover have "list_all2 same_entry (questions quiz) qs"
    using a by (rule ask_all_same_entry)
  ultimately show ?thesis using list_all2_same_entry_maps [of "questions quiz" qs] by simp
qed

theorem start_keeps_entries_witness:
  "questions (fst (start quiz_up (console zeros [Line ''x'', Line ''up'', Line '''']))) =
     [(movie ''Up'' [''PU'', ''UP''])\<lparr>correct_guess := True, spent := [''PU'']\<rparr>] \<and>
   map title (questions (fst (start quiz_up (console zeros [Line ''x'', Line ''up'', Line ''''])))) = [''Up''] \<and>
   map anagrams (questions (fst (start quiz_up (console zeros [Line ''x'', Line ''up'', Line ''''])))) =
     [''PU'', ''UP''] # []"
proof -
  have run: "questions (fst (start quiz_up (console zeros [Line ''x'', Line ''up'', Line '''']))) =
     [(movie ''Up'' [''PU'', ''UP''])\<lparr>correct_guess := True, spent := [''PU'']\<rparr>]"
    by (simp add: quiz_up_def upt3 run_defs string_defs)
  have "map title (questions quiz_up) = [''Up'']" "map anagrams (questions quiz_up) = [''PU'', ''UP''] # []"
    by (simp_all add: quiz_up_def movie_def)
  with start_keeps_entries [of quiz_up "console zeros [Line ''x'', Line ''up'', Line '''']"] run
  show ?thesis by simp
qed

end
